theory Spec2Isabelle
  imports Complex_Main "HOL-Library.Sublist"
begin

section \<open>Time-range utilities of packages/grafana-data/src/datetime/rangeutil.ts\<close>

text \<open>
  Conventions of the embedding.

  \<^item> A JavaScript number that is finite is the rational it denotes (every finite double is
    a rational); arithmetic on finite numbers is exact, so the development describes the
    code on values whose results the double format represents exactly, and an integer is
    printed in plain decimal digits, as the language does below \<open>10 ^ 21\<close>. The three
    non-finite values are constructors of \<open>jsnum\<close>, used where a division by zero can
    produce them; a \<open>parseInt\<close> that finds no digit gives NaN, which is \<open>None\<close> in an
    \<open>int option\<close>.
  \<^item> A JavaScript string is a \<open>string\<close>: a list of code units below 256. The four
    non-ASCII letters of the catalog labels are written by their code point.
  \<^item> A \<open>DateTime\<close> (a moment.js instant) is the number of milliseconds since the epoch.
  \<^item> A thrown \<open>Error\<close> is the left summand of a result.
\<close>

subsection \<open>Numbers\<close>

datatype jsnum = Fin rat | PInf | NInf | NaN

text \<open>The comparison \<open>x < c\<close> against a finite literal \<open>c\<close>; it is false on NaN.\<close>

fun js_lt :: "jsnum \<Rightarrow> rat \<Rightarrow> bool" where
  "js_lt (Fin q) c = (q < c)"
| "js_lt NInf c = True"
| "js_lt PInf c = False"
| "js_lt NaN c = False"

subsection \<open>Range to relative range and back\<close>

type_synonym DateTime = int

text \<open>
  Modelled from the spec: \<open>DateTime\<close> and its methods come from \<open>./moment_wrapper\<close>,
  which wraps moment.js and is not among the sources. The specification has the absolute
  range as instants and the relative range in seconds before now. As in moment.js, an
  instant is a number of milliseconds since the epoch, \<open>unix()\<close> is the instant in whole
  seconds, floored, and \<open>subtract(n, 's')\<close> moves the instant back by \<open>n\<close> seconds.
\<close>

definition unix :: "DateTime \<Rightarrow> int" where
  "unix t = t div 1000"

definition subtract_s :: "DateTime \<Rightarrow> int \<Rightarrow> DateTime" where
  "subtract_s t n = t - n * 1000"

datatype TimeType = Instant DateTime | Expr string

record RawTimeRange =
  raw_from :: TimeType
  raw_to :: TimeType

record TimeRange =
  tr_from :: DateTime
  tr_to :: DateTime
  tr_raw :: RawTimeRange

record RelativeTimeRange =
  rel_from :: int
  rel_to :: int

definition timeRangeToRelative :: "TimeRange \<Rightarrow> DateTime \<Rightarrow> RelativeTimeRange" where
  "timeRangeToRelative timeRange now =
     (let from = unix now - unix (tr_from timeRange);
          to = unix now - unix (tr_to timeRange)
      in \<lparr>rel_from = from, rel_to = to\<rparr>)"

definition relativeToTimeRange :: "RelativeTimeRange \<Rightarrow> DateTime \<Rightarrow> TimeRange" where
  "relativeToTimeRange relativeTimeRange now =
     (let from = subtract_s now (rel_from relativeTimeRange);
          to = (if rel_to relativeTimeRange = 0 then now
                else subtract_s now (rel_to relativeTimeRange))
      in \<lparr>tr_from = from, tr_to = to,
          tr_raw = \<lparr>raw_from = Instant from, raw_to = Instant to\<rparr>\<rparr>)"

subsection \<open>The interval rounder\<close>

definition roundInterval :: "jsnum \<Rightarrow> rat" where
  "roundInterval interval =
    (if js_lt interval 10 then 1
     else if js_lt interval 15 then 10
     else if js_lt interval 35 then 20
     else if js_lt interval 75 then 50
     else if js_lt interval 150 then 100
     else if js_lt interval 350 then 200
     else if js_lt interval 750 then 500
     else if js_lt interval 1500 then 1000
     else if js_lt interval 3500 then 2000
     else if js_lt interval 7500 then 5000
     else if js_lt interval 12500 then 10000
     else if js_lt interval 17500 then 15000
     else if js_lt interval 25000 then 20000
     else if js_lt interval 45000 then 30000
     else if js_lt interval 90000 then 60000
     else if js_lt interval 210000 then 120000
     else if js_lt interval 450000 then 300000
     else if js_lt interval 750000 then 600000
     else if js_lt interval 1050000 then 900000
     else if js_lt interval 1500000 then 1200000
     else if js_lt interval 2700000 then 1800000
     else if js_lt interval 5400000 then 3600000
     else if js_lt interval 9000000 then 7200000
     else if js_lt interval 16200000 then 10800000
     else if js_lt interval 32400000 then 21600000
     else if js_lt interval 86400000 then 43200000
     else if js_lt interval 604800000 then 86400000
     else if js_lt interval 1814400000 then 604800000
     else if js_lt interval 3628800000 then 2592000000
     else 31536000000)"

text \<open>
  The rounder as the specification words it: a ladder of exclusive upper bounds, each
  with its canonical value, scanned in order; the first bound above the input wins and
  the largest bucket is the default.
\<close>

definition ladder :: "(rat \<times> rat) list" where
  "ladder =
    [(10, 1), (15, 10), (35, 20), (75, 50), (150, 100), (350, 200), (750, 500),
     (1500, 1000), (3500, 2000), (7500, 5000), (12500, 10000), (17500, 15000),
     (25000, 20000), (45000, 30000), (90000, 60000), (210000, 120000),
     (450000, 300000), (750000, 600000), (1050000, 900000), (1500000, 1200000),
     (2700000, 1800000), (5400000, 3600000), (9000000, 7200000),
     (16200000, 10800000), (32400000, 21600000), (86400000, 43200000),
     (604800000, 86400000), (1814400000, 604800000), (3628800000, 2592000000)]"

fun first_match :: "jsnum \<Rightarrow> (rat \<times> rat) list \<Rightarrow> rat" where
  "first_match d [] = 31536000000"
| "first_match d ((t, v) # rest) = (if js_lt d t then v else first_match d rest)"

text \<open>The bucket an input equal to the \<open>i\<close>-th bound falls into: the one after it.\<close>

definition bucket_after :: "nat \<Rightarrow> rat" where
  "bucket_after i = (if Suc i < length ladder then snd (ladder ! Suc i) else 31536000000)"

subsection \<open>Numbers as text\<close>

text \<open>
  \<open>Number::toString\<close> on an integer: its decimal digits, with a minus sign when it is
  negative.
\<close>

definition digit_char :: "nat \<Rightarrow> char" where
  "digit_char n = char_of (48 + n)"

fun nat_digits :: "nat \<Rightarrow> string" where
  "nat_digits n = (if n < 10 then [digit_char n] else nat_digits (n div 10) @ [digit_char (n mod 10)])"

definition js_toString :: "int \<Rightarrow> string" where
  "js_toString i = (if i < 0 then ''-'' @ nat_digits (nat (- i)) else nat_digits (nat i))"

text \<open>
  The remainder operator \<open>%\<close>: the quotient is truncated towards zero, so the result
  has the sign of the dividend. All divisors in this module are positive literals.
\<close>

definition js_trunc :: "rat \<Rightarrow> int" where
  "js_trunc q = (if q < 0 then \<lceil>q\<rceil> else \<lfloor>q\<rfloor>)"

definition js_rem :: "rat \<Rightarrow> rat \<Rightarrow> rat" where
  "js_rem x y = x - y * of_int (js_trunc (x / y))"


subsection \<open>Durations as text\<close>

definition secondsToHms :: "rat \<Rightarrow> string" where
  "secondsToHms seconds =
    (let numYears = \<lfloor>seconds / 31536000\<rfloor> in
     if numYears \<noteq> 0 then js_toString numYears @ ''y'' else
     let numDays = \<lfloor>js_rem seconds 31536000 / 86400\<rfloor> in
     if numDays \<noteq> 0 then js_toString numDays @ ''d'' else
     let numHours = \<lfloor>js_rem (js_rem seconds 31536000) 86400 / 3600\<rfloor> in
     if numHours \<noteq> 0 then js_toString numHours @ ''h'' else
     let numMinutes = \<lfloor>js_rem (js_rem (js_rem seconds 31536000) 86400) 3600 / 60\<rfloor> in
     if numMinutes \<noteq> 0 then js_toString numMinutes @ ''m'' else
     let numSeconds = \<lfloor>js_rem (js_rem (js_rem (js_rem seconds 31536000) 86400) 3600) 60\<rfloor> in
     if numSeconds \<noteq> 0 then js_toString numSeconds @ ''s'' else
     let numMilliseconds = \<lfloor>seconds * 1000\<rfloor> in
     if numMilliseconds \<noteq> 0 then js_toString numMilliseconds @ ''ms''
     else ''less than a millisecond'')"









subsection \<open>Strings\<close>

text \<open>\<open>s.indexOf(t)\<close>: the first index at which \<open>t\<close> occurs in \<open>s\<close>, or \<open>-1\<close>.\<close>

fun indexOf_at :: "string \<Rightarrow> string \<Rightarrow> nat \<Rightarrow> int" where
  "indexOf_at [] t i = (if t = [] then int i else - 1)"
| "indexOf_at (c # cs) t i = (if prefix t (c # cs) then int i else indexOf_at cs t (Suc i))"

definition indexOf :: "string \<Rightarrow> string \<Rightarrow> int" where
  "indexOf s t = indexOf_at s t 0"

fun join_with :: "string \<Rightarrow> string list \<Rightarrow> string" where
  "join_with sep [] = []"
| "join_with sep [x] = x"
| "join_with sep (x # y # ys) = x @ sep @ join_with sep (y # ys)"

definition is_digit :: "char \<Rightarrow> bool" where
  "is_digit c = (c \<in> set ''0123456789'')"

definition is_word :: "char \<Rightarrow> bool" where
  "is_word c =
    (c \<in> set ''abcdefghijklmnopqrstuvwxyzABCDEFGHIJKLMNOPQRSTUVWXYZ0123456789_'')"

text \<open>
  White space and line terminators that \<open>Number\<close> and \<open>parseInt\<close> strip, among the
  code units below 256: TAB, LF, VT, FF, CR, SP and NBSP.
\<close>

definition is_ws :: "char \<Rightarrow> bool" where
  "is_ws c = (c \<in> set [CHR 0x09, CHR 0x0A, CHR 0x0B, CHR 0x0C, CHR 0x0D, CHR 0x20, CHR 0xA0])"

definition trim :: "string \<Rightarrow> string" where
  "trim s = rev (dropWhile is_ws (rev (dropWhile is_ws s)))"

definition char_val :: "char \<Rightarrow> nat" where
  "char_val c =
    (if c \<in> set ''0123456789'' then of_char c - 48
     else if c \<in> set ''abcdef'' then of_char c - 87
     else if c \<in> set ''ABCDEF'' then of_char c - 55
     else 0)"

definition digits_val :: "nat \<Rightarrow> string \<Rightarrow> nat" where
  "digits_val b ds = foldl (\<lambda>a c. a * b + char_val c) 0 ds"

subsection \<open>Regular expressions\<close>

text \<open>
  The two regular expressions of the module use literals, character classes, \<open>+\<close> on a
  class, \<open>?\<close>, alternation, capture groups and \<open>^\<close>. The matcher is the backtracking
  one of the language: for a pattern, an input and a state (a position and the captures
  so far) it lists the states after a match in the order backtracking tries them:
  the left alternative first, the optional part first, the longest repetition first.
\<close>

datatype cclass = Digit | WordChar | OneOf string

fun in_class :: "cclass \<Rightarrow> char \<Rightarrow> bool" where
  "in_class Digit c = is_digit c"
| "in_class WordChar c = is_word c"
| "in_class (OneOf cs) c = (c \<in> set cs)"

datatype regex =
    Bol
  | Lit string
  | Cls cclass
  | Plus cclass
  | Opt regex
  | Seq regex regex
  | Alt regex regex
  | Grp nat regex

type_synonym captures = "nat \<Rightarrow> string option"

fun rmatch :: "regex \<Rightarrow> string \<Rightarrow> nat \<times> captures \<Rightarrow> (nat \<times> captures) list" where
  "rmatch Bol s (i, c) = (if i = 0 then [(i, c)] else [])"
| "rmatch (Lit l) s (i, c) = (if take (length l) (drop i s) = l then [(i + length l, c)] else [])"
| "rmatch (Cls k) s (i, c) = (if i < length s \<and> in_class k (s ! i) then [(Suc i, c)] else [])"
| "rmatch (Plus k) s (i, c) =
     map (\<lambda>n. (i + n, c)) (rev [1..<Suc (length (takeWhile (in_class k) (drop i s)))])"
| "rmatch (Opt r) s (i, c) = rmatch r s (i, c) @ [(i, c)]"
| "rmatch (Seq a b) s (i, c) = concat (map (rmatch b s) (rmatch a s (i, c)))"
| "rmatch (Alt a b) s (i, c) = rmatch a s (i, c) @ rmatch b s (i, c)"
| "rmatch (Grp n r) s (i, c) =
     map (\<lambda>(j, c'). (j, c'(n \<mapsto> take (j - i) (drop i s)))) (rmatch r s (i, c))"

text \<open>
  \<open>regex.exec(s)\<close> and \<open>s.match(regex)\<close> for a regex without flags: the first match at
  the leftmost position that has one; the result gives the text of each group.
\<close>

definition regex_exec :: "regex \<Rightarrow> string \<Rightarrow> captures option" where
  "regex_exec r s =
    (case concat (map (\<lambda>i. rmatch r s (i, Map.empty)) [0..<Suc (length s)]) of
       [] \<Rightarrow> None
     | (j, c) # rest \<Rightarrow> Some c)"

subsection \<open>\<open>Number(string)\<close> and \<open>parseInt(string, 10)\<close>\<close>

text \<open>
  \<open>Number\<close> applied to a string: the string is trimmed; the empty string is 0; then
  it is a hexadecimal, octal or binary literal without sign, or a decimal literal with
  an optional sign (digits, an optional fraction, an optional exponent, or
  \<open>Infinity\<close>); anything else is NaN. The value is the exact one.
\<close>

definition radix_literal :: "nat \<Rightarrow> string \<Rightarrow> string \<Rightarrow> jsnum" where
  "radix_literal b alphabet ds =
    (if ds \<noteq> [] \<and> list_all (\<lambda>c. c \<in> set alphabet) ds then Fin (of_nat (digits_val b ds))
     else NaN)"

definition split_sign :: "string \<Rightarrow> int \<times> string" where
  "split_sign s =
    (case s of
       [] \<Rightarrow> (1, s)
     | c # r \<Rightarrow> if c = CHR ''-'' then (- 1, r) else if c = CHR ''+'' then (1, r) else (1, s))"

definition exponent_part :: "string \<Rightarrow> int option" where
  "exponent_part r =
    (case r of
       [] \<Rightarrow> Some 0
     | c # r' \<Rightarrow>
         if c \<in> set ''eE'' then
           (case split_sign r' of (sg, ds) \<Rightarrow>
              if ds \<noteq> [] \<and> list_all is_digit ds then Some (sg * int (digits_val 10 ds))
              else None)
         else None)"

definition pow10 :: "int \<Rightarrow> rat" where
  "pow10 e = (if e < 0 then 1 / 10 ^ nat (- e) else 10 ^ nat e)"

definition unsigned_decimal :: "string \<Rightarrow> rat option" where
  "unsigned_decimal s =
    (let ip = takeWhile is_digit s;
         r = dropWhile is_digit s;
         fp = (case r of [] \<Rightarrow> [] | c # r' \<Rightarrow> if c = CHR ''.'' then takeWhile is_digit r' else []);
         r2 = (case r of [] \<Rightarrow> [] | c # r' \<Rightarrow> if c = CHR ''.'' then dropWhile is_digit r' else r)
     in if ip = [] \<and> fp = [] then None
        else (case exponent_part r2 of
                None \<Rightarrow> None
              | Some e \<Rightarrow>
                  Some ((of_nat (digits_val 10 ip) + of_nat (digits_val 10 fp) / 10 ^ length fp)
                        * pow10 e)))"

definition decimal_literal :: "string \<Rightarrow> jsnum" where
  "decimal_literal s =
    (case split_sign s of (sg, r) \<Rightarrow>
       if r = ''Infinity'' then (if sg < 0 then NInf else PInf)
       else (case unsigned_decimal r of None \<Rightarrow> NaN | Some q \<Rightarrow> Fin (of_int sg * q)))"

definition js_Number :: "string \<Rightarrow> jsnum" where
  "js_Number str =
    (let s = trim str in
     if s = [] then Fin 0
     else if take 2 s = ''0x'' \<or> take 2 s = ''0X'' then
       radix_literal 16 ''0123456789abcdefABCDEF'' (drop 2 s)
     else if take 2 s = ''0o'' \<or> take 2 s = ''0O'' then radix_literal 8 ''01234567'' (drop 2 s)
     else if take 2 s = ''0b'' \<or> take 2 s = ''0B'' then radix_literal 2 ''01'' (drop 2 s)
     else decimal_literal s)"

text \<open>
  A number in a condition: NaN and zero are false. The double nearest to a rational is
  zero exactly when the rational is at most \<open>2 ^ - 1075\<close> in magnitude, which is the one
  place where the rounding of \<open>Number\<close> decides a branch of this module.
\<close>

fun js_truthy :: "jsnum \<Rightarrow> bool" where
  "js_truthy (Fin q) = (1 < \<bar>q\<bar> * 2 ^ 1075)"
| "js_truthy PInf = True"
| "js_truthy NInf = True"
| "js_truthy NaN = False"

text \<open>
  \<open>parseInt(str, 10)\<close>: leading white space and a sign are skipped, the longest prefix
  of decimal digits is the value, and there is no value (NaN, here \<open>None\<close>) without a
  digit.
\<close>

definition parseInt10 :: "string \<Rightarrow> int option" where
  "parseInt10 str =
    (case split_sign (dropWhile is_ws str) of (sg, s) \<Rightarrow>
       let ds = takeWhile is_digit s
       in if ds = [] then None else Some (sg * int (digits_val 10 ds)))"

subsection \<open>The interval parser\<close>

definition interval_regex :: regex where
  "interval_regex =
    Grp 0 (Seq (Grp 1 (Seq (Opt (Lit ''-''))
                        (Seq (Plus Digit) (Opt (Seq (Lit ''.'') (Plus Digit))))))
               (Grp 2 (Alt (Lit ''ms'') (Cls (OneOf ''Mwdhmsy'')))))"

text \<open>histogram & trends\<close>

definition intervals_in_seconds :: "(string \<times> rat) list" where
  "intervals_in_seconds =
    [(''y'', 31536000), (''M'', 2592000), (''w'', 604800), (''d'', 86400), (''h'', 3600),
     (''m'', 60), (''s'', 1), (''ms'', 1 / 1000)]"

datatype error = Error string

record IntervalInfo =
  info_sec :: rat
  info_type :: string
  info_count :: "int option"

definition invalid_interval_message :: string where
  "invalid_interval_message =
    ''Invalid interval string, has to be either unit-less or end with one of the following units: ''
    @ [CHR 0x22] @ join_with '', '' (map fst intervals_in_seconds) @ [CHR 0x22]"

definition describeInterval :: "string \<Rightarrow> error + IntervalInfo" where
  "describeInterval str =
    (if js_truthy (js_Number str) then
       Inr \<lparr>info_sec = 1, info_type = ''s'', info_count = parseInt10 str\<rparr>
     else
       (case regex_exec interval_regex str of
          None \<Rightarrow> Inl (Error invalid_interval_message)
        | Some matches \<Rightarrow>
            (case matches 2 of
               None \<Rightarrow> Inl (Error ''describeInterval failed: invalid interval string'')
             | Some unit \<Rightarrow>
                 (case map_of intervals_in_seconds unit of
                    None \<Rightarrow> Inl (Error ''describeInterval failed: invalid interval string'')
                  | Some sec \<Rightarrow>
                      Inr \<lparr>info_sec = sec, info_type = unit,
                           info_count =
                             (case matches 1 of None \<Rightarrow> None | Some n \<Rightarrow> parseInt10 n)\<rparr>))))"

text \<open>
  A product of finite numbers with a count that may be NaN: \<open>None\<close> is NaN.
\<close>

definition intervalToSeconds :: "string \<Rightarrow> error + rat option" where
  "intervalToSeconds str =
    (case describeInterval str of
       Inl e \<Rightarrow> Inl e
     | Inr info \<Rightarrow> Inr (map_option (\<lambda>n. info_sec info * of_int n) (info_count info)))"

definition intervalToMs :: "string \<Rightarrow> error + rat option" where
  "intervalToMs str =
    (case describeInterval str of
       Inl e \<Rightarrow> Inl e
     | Inr info \<Rightarrow> Inr (map_option (\<lambda>n. info_sec info * 1000 * of_int n) (info_count info)))"

subsection \<open>The interval for a range and a resolution\<close>

text \<open>A quotient of finite numbers; the divisor may be zero.\<close>

definition js_div :: "rat \<Rightarrow> rat \<Rightarrow> jsnum" where
  "js_div x y =
    (if y \<noteq> 0 then Fin (x / y) else if 0 < x then PInf else if x < 0 then NInf else NaN)"

record IntervalValues =
  intervalMs :: rat
  interval :: string

definition calculateInterval ::
  "TimeRange \<Rightarrow> rat \<Rightarrow> string option \<Rightarrow> error + IntervalValues" where
  "calculateInterval timeRange resolution lowLimitInterval =
    (case (case lowLimitInterval of
             None \<Rightarrow> Inr (Some 1)
           | Some l \<Rightarrow> if l = [] then Inr (Some 1) else intervalToMs l) of
       Inl e \<Rightarrow> Inl e
     | Inr lowLimitMs \<Rightarrow>
         let intervalMs = roundInterval (js_div (of_int (tr_to timeRange - tr_from timeRange)) resolution);
             intervalMs = (case lowLimitMs of
                             None \<Rightarrow> intervalMs
                           | Some l \<Rightarrow> if l > intervalMs then l else intervalMs)
         in Inr \<lparr>intervalMs = intervalMs, interval = secondsToHms (intervalMs / 1000)\<rparr>)"

subsection \<open>The catalog of ranges\<close>

record span =
  span_display :: string
  span_section :: "rat option"

definition spans :: "(string \<times> span) list" where
  "spans =
    [(''s'', \<lparr>span_display = ''segundo'', span_section = None\<rparr>),
     (''m'', \<lparr>span_display = ''minuto'', span_section = None\<rparr>),
     (''h'', \<lparr>span_display = ''hora'', span_section = None\<rparr>),
     (''d'', \<lparr>span_display = ''dia'', span_section = None\<rparr>),
     (''w'', \<lparr>span_display = ''semana'', span_section = None\<rparr>),
     (''M'', \<lparr>span_display = ''m'' @ [CHR 0xEA] @ ''s'', span_section = None\<rparr>),
     (''y'', \<lparr>span_display = ''ano'', span_section = None\<rparr>)]"

record TimeOption =
  opt_from :: string
  opt_to :: string
  opt_display :: string
  opt_section :: "rat option"
  opt_invalid :: "bool option"

text \<open>An entry of the two tables: \<open>{ from, to, display }\<close>, the other fields absent.\<close>

definition preset :: "string \<Rightarrow> string \<Rightarrow> string \<Rightarrow> TimeOption" where
  "preset f t d =
    \<lparr>opt_from = f, opt_to = t, opt_display = d, opt_section = None, opt_invalid = None\<rparr>"

definition rangeOptions :: "TimeOption list" where
  "rangeOptions =
    [preset ''now/d'' ''now/d'' (''Hoje''),
     preset ''now/d'' ''now'' (''Hoje at'' @ [CHR 0xE9] @ '' agora''),
     preset ''now/w'' ''now/w'' (''Esta semana''),
     preset ''now/w'' ''now'' (''Esta semana at'' @ [CHR 0xE9] @ '' agora''),
     preset ''now/M'' ''now/M'' (''Este m'' @ [CHR 0xEA] @ ''s''),
     preset ''now/M'' ''now'' (''Este m'' @ [CHR 0xEA] @ ''s at'' @ [CHR 0xE9] @ '' agora''),
     preset ''now/y'' ''now/y'' (''Este ano''),
     preset ''now/y'' ''now'' (''Este ano at'' @ [CHR 0xE9] @ '' agora''),
     preset ''now-1d/d'' ''now-1d/d'' (''Ontem''),
     preset ''now-2d/d'' ''now-2d/d'' (''Anteontem''),
     preset ''now-7d/d'' ''now-7d/d'' (''Este dia na semana passada''),
     preset ''now-1w/w'' ''now-1w/w'' (''Semana anterior''),
     preset ''now-1M/M'' ''now-1M/M'' (''M'' @ [CHR 0xEA] @ ''s anterior''),
     preset ''now-1Q/fQ'' ''now-1Q/fQ'' (''Trimestre fiscal anterior''),
     preset ''now-1y/y'' ''now-1y/y'' (''Ano anterior''),
     preset ''now-1y/fy'' ''now-1y/fy'' (''Ano fiscal anterior''),
     preset ''now-5m'' ''now'' ([CHR 0xDA] @ ''ltimos 5 minutos''),
     preset ''now-15m'' ''now'' ([CHR 0xDA] @ ''ltimos 15 minutos''),
     preset ''now-30m'' ''now'' ([CHR 0xDA] @ ''ltimos 30 minutos''),
     preset ''now-1h'' ''now'' ([CHR 0xDA] @ ''ltima 1 hora''),
     preset ''now-3h'' ''now'' ([CHR 0xDA] @ ''ltimas 3 horas''),
     preset ''now-6h'' ''now'' ([CHR 0xDA] @ ''ltimas 6 horas''),
     preset ''now-12h'' ''now'' ([CHR 0xDA] @ ''ltimas 12 horas''),
     preset ''now-24h'' ''now'' ([CHR 0xDA] @ ''ltimas 24 horas''),
     preset ''now-2d'' ''now'' ([CHR 0xDA] @ ''ltimos 2 dias''),
     preset ''now-7d'' ''now'' ([CHR 0xDA] @ ''ltimos 7 dias''),
     preset ''now-30d'' ''now'' ([CHR 0xDA] @ ''ltimos 30 dias''),
     preset ''now-90d'' ''now'' ([CHR 0xDA] @ ''ltimos 90 dias''),
     preset ''now-6M'' ''now'' ([CHR 0xDA] @ ''ltimos 6 meses''),
     preset ''now-1y'' ''now'' ([CHR 0xDA] @ ''ltimo 1 ano''),
     preset ''now-2y'' ''now'' ([CHR 0xDA] @ ''ltimos 2 anos''),
     preset ''now-5y'' ''now'' ([CHR 0xDA] @ ''ltimos 5 anos''),
     preset ''now/fQ'' ''now'' (''Este trimestre fiscal at'' @ [CHR 0xE9] @ '' agora''),
     preset ''now/fQ'' ''now/fQ'' (''Este trimestre fiscal''),
     preset ''now/fy'' ''now'' (''Este ano fiscal at'' @ [CHR 0xE9] @ '' agora''),
     preset ''now/fy'' ''now/fy'' (''Este ano fiscal'')]"

definition hiddenRangeOptions :: "TimeOption list" where
  "hiddenRangeOptions =
    [preset ''now'' ''now+1m'' (''Pr'' @ [CHR 0xF3] @ ''ximo minuto''),
     preset ''now'' ''now+5m'' (''Pr'' @ [CHR 0xF3] @ ''ximos 5 minutos''),
     preset ''now'' ''now+15m'' (''Pr'' @ [CHR 0xF3] @ ''ximos 15 minutos''),
     preset ''now'' ''now+30m'' (''Pr'' @ [CHR 0xF3] @ ''ximos 30 minutos''),
     preset ''now'' ''now+1h'' (''Pr'' @ [CHR 0xF3] @ ''xima hora''),
     preset ''now'' ''now+3h'' (''Pr'' @ [CHR 0xF3] @ ''ximas 3 horas''),
     preset ''now'' ''now+6h'' (''Pr'' @ [CHR 0xF3] @ ''ximas 6 horas''),
     preset ''now'' ''now+12h'' (''Pr'' @ [CHR 0xF3] @ ''ximas 12 horas''),
     preset ''now'' ''now+24h'' (''Pr'' @ [CHR 0xF3] @ ''ximas 24 horas''),
     preset ''now'' ''now+2d'' (''Pr'' @ [CHR 0xF3] @ ''ximos 2 dias''),
     preset ''now'' ''now+7d'' (''Pr'' @ [CHR 0xF3] @ ''ximos 7 dias''),
     preset ''now'' ''now+30d'' (''Pr'' @ [CHR 0xF3] @ ''ximos 30 dias''),
     preset ''now'' ''now+90d'' (''Pr'' @ [CHR 0xF3] @ ''ximos 90 dias''),
     preset ''now'' ''now+6M'' (''Pr'' @ [CHR 0xF3] @ ''ximos 6 meses''),
     preset ''now'' ''now+1y'' (''Pr'' @ [CHR 0xF3] @ ''ximo ano''),
     preset ''now'' ''now+2y'' (''Pr'' @ [CHR 0xF3] @ ''ximos 2 anos''),
     preset ''now'' ''now+5y'' (''Pr'' @ [CHR 0xF3] @ ''ximos 5 anos'')]"

definition frame_key :: "TimeOption \<Rightarrow> string" where
  "frame_key frame = opt_from frame @ '' to '' @ opt_to frame"

definition add_frame :: "TimeOption \<Rightarrow> (string \<rightharpoonup> TimeOption) \<Rightarrow> (string \<rightharpoonup> TimeOption)" where
  "add_frame frame idx = idx(frame_key frame \<mapsto> frame)"

definition rangeIndex :: "string \<rightharpoonup> TimeOption" where
  "rangeIndex = fold add_frame hiddenRangeOptions (fold add_frame rangeOptions Map.empty)"

text \<open>
  The expressions \<open>e\<close> for which \<open>e @ '' to now''\<close> is a key of the catalog:
  the \<open>from\<close> of the presets that end now.
\<close>

definition to_now_sources :: "string list" where
  "to_now_sources =
    map (\<lambda>k. take (length k - 7) k)
      (filter (\<lambda>k. drop (length k - 7) k = '' to now'')
        (map frame_key (rangeOptions @ hiddenRangeOptions)))"

subsection \<open>Describing a range expression\<close>

definition range_regex :: regex where
  "range_regex =
    Grp 0 (Seq Bol (Seq (Lit ''now'') (Seq (Grp 1 (Cls (OneOf ''-+'')))
             (Seq (Grp 2 (Plus Digit)) (Grp 3 (Cls WordChar))))))"

text \<open>A number that may be NaN, appended to a string and compared with 1.\<close>

definition num_text :: "int option \<Rightarrow> string" where
  "num_text n = (case n of None \<Rightarrow> ''NaN'' | Some k \<Rightarrow> js_toString k)"

definition gt_one :: "int option \<Rightarrow> bool" where
  "gt_one n = (case n of None \<Rightarrow> False | Some k \<Rightarrow> 1 < k)"

text \<open>
  handles expressions like
  5m
  5m to now/d
  now/d to now
  now/d
  if no to <expr> then to now is assumed
\<close>

definition describeTextRange :: "string \<Rightarrow> TimeOption" where
  "describeTextRange expr0 =
    (let isLast = (indexOf expr0 ''+'' \<noteq> 0);
         expr = (if indexOf expr0 ''now'' = - 1
                 then (if isLast then ''now-'' else ''now'') @ expr0 else expr0)
     in case rangeIndex (expr @ '' to now'') of
          Some opt \<Rightarrow> opt
        | None \<Rightarrow>
            let opt = (if isLast
                       then \<lparr>opt_from = expr, opt_to = ''now'', opt_display = [],
                             opt_section = None, opt_invalid = None\<rparr>
                       else \<lparr>opt_from = ''now'', opt_to = expr, opt_display = [],
                             opt_section = None, opt_invalid = None\<rparr>)
            in case regex_exec range_regex expr of
                 Some parts \<Rightarrow>
                   let unit = parts 3;
                       amount = (case parts 2 of None \<Rightarrow> None | Some n \<Rightarrow> parseInt10 n);
                       span = (case unit of None \<Rightarrow> None | Some u \<Rightarrow> map_of spans u)
                   in (case span of
                         Some sp \<Rightarrow>
                           opt\<lparr>opt_display :=
                                 (if isLast then ''Last '' else ''Next '') @ num_text amount
                                 @ '' '' @ span_display sp @ (if gt_one amount then ''s'' else []),
                               opt_section := span_section sp\<rparr>
                       | None \<Rightarrow> opt)
               | None \<Rightarrow>
                   opt\<lparr>opt_display := opt_from opt @ '' to '' @ opt_to opt,
                       opt_invalid := Some True\<rparr>)"

definition isValidTimeSpan :: "string \<Rightarrow> bool" where
  "isValidTimeSpan v =
    (if indexOf v ''$'' = 0 \<or> indexOf v ''+$'' = 0 then True
     else let info = describeTextRange v in opt_invalid info \<noteq> Some True)"

text \<open>
  The expression after the first step of \<open>describeTextRange\<close>: an expression without
  "now" is prefixed, by "now" when it begins with "+" and by "now-" otherwise.
\<close>

definition normalized :: "string \<Rightarrow> string" where
  "normalized expr =
    (if indexOf expr ''now'' = - 1
     then (if indexOf expr ''+'' \<noteq> 0 then ''now-'' else ''now'') @ expr else expr)"

section \<open>Properties\<close>

subsection \<open>Range to relative range and back\<close>

lemma unix_roundtrip: "subtract_s now (unix now - unix t) = t - t mod 1000 + now mod 1000"
proof -
  have a: "now div 1000 * 1000 = now - now mod 1000" by (simp add: minus_mod_eq_div_mult)
  have b: "t div 1000 * 1000 = t - t mod 1000" by (simp add: minus_mod_eq_div_mult)
  show ?thesis unfolding subtract_s_def unix_def left_diff_distrib a b by simp
qed

lemma unix_subtract: "unix (subtract_s now (unix now - unix t)) = unix t"
proof -
  have "(t - t mod 1000 + now mod 1000) div 1000 = t div 1000"
  proof -
    have "t - t mod 1000 + now mod 1000 = now mod 1000 + (t div 1000) * 1000"
      by (simp add: minus_mod_eq_div_mult)
    then show ?thesis by (simp add: div_pos_pos_trivial)
  qed
  then show ?thesis unfolding unix_roundtrip unfolding unix_def .
qed

lemma roundtrip_from:
  "tr_from (relativeToTimeRange (timeRangeToRelative tr now) now) =
   subtract_s now (unix now - unix (tr_from tr))"
  by (simp add: relativeToTimeRange_def timeRangeToRelative_def Let_def)

lemma roundtrip_to:
  "tr_to (relativeToTimeRange (timeRangeToRelative tr now) now) =
   subtract_s now (unix now - unix (tr_to tr))"
  by (simp add: relativeToTimeRange_def timeRangeToRelative_def subtract_s_def Let_def)

text \<open>
  C1, as stated: the round trip gives back \<open>tr.from\<close> and \<open>tr.to\<close> exactly. It does
  not: the relative range counts whole seconds, so the milliseconds of \<open>tr\<close> are replaced
  by those of \<open>now\<close>. With \<open>now\<close> at 1500 ms and \<open>tr.from\<close> at 0 ms the recovered
  \<open>from\<close> is 500 ms.
\<close>

theorem roundtrip_counterexample:
  "tr_from (relativeToTimeRange (timeRangeToRelative
      \<lparr>tr_from = 0, tr_to = 1000, tr_raw = \<lparr>raw_from = Instant 0, raw_to = Instant 1000\<rparr>\<rparr> 1500) 1500)
   \<noteq> tr_from \<lparr>tr_from = 0, tr_to = 1000, tr_raw = \<lparr>raw_from = Instant 0, raw_to = Instant 1000\<rparr>\<rparr>"
  by (simp add: relativeToTimeRange_def timeRangeToRelative_def unix_def subtract_s_def)

text \<open>
  C1, amended: for every range \<open>tr\<close> and instant \<open>now\<close> the round trip yields the instants
  of \<open>tr\<close> with their millisecond-of-second replaced by that of \<open>now\<close>; so it recovers
  the whole seconds (\<open>unix()\<close>) of \<open>tr.from\<close> and \<open>tr.to\<close> always, and the instants
  themselves exactly when their millisecond-of-second equals that of \<open>now\<close>.
\<close>

theorem roundtrip_whole_seconds:
  "tr_from (relativeToTimeRange (timeRangeToRelative tr now) now)
     = tr_from tr - tr_from tr mod 1000 + now mod 1000
   \<and> tr_to (relativeToTimeRange (timeRangeToRelative tr now) now)
     = tr_to tr - tr_to tr mod 1000 + now mod 1000
   \<and> unix (tr_from (relativeToTimeRange (timeRangeToRelative tr now) now)) = unix (tr_from tr)
   \<and> unix (tr_to (relativeToTimeRange (timeRangeToRelative tr now) now)) = unix (tr_to tr)
   \<and> (tr_from (relativeToTimeRange (timeRangeToRelative tr now) now) = tr_from tr
        \<longleftrightarrow> tr_from tr mod 1000 = now mod 1000)
   \<and> (tr_to (relativeToTimeRange (timeRangeToRelative tr now) now) = tr_to tr
        \<longleftrightarrow> tr_to tr mod 1000 = now mod 1000)"
  unfolding roundtrip_from roundtrip_to unix_subtract unfolding unix_roundtrip by auto

theorem roundtrip_whole_seconds_witness:
  "(5000::int) mod 1000 = 9000 mod 1000 \<and> (7000::int) mod 1000 = 9000 mod 1000
   \<and> tr_from (relativeToTimeRange (timeRangeToRelative
        \<lparr>tr_from = 5000, tr_to = 7000,
         tr_raw = \<lparr>raw_from = Instant 5000, raw_to = Instant 7000\<rparr>\<rparr> 9000) 9000) = 5000
   \<and> tr_to (relativeToTimeRange (timeRangeToRelative
        \<lparr>tr_from = 5000, tr_to = 7000,
         tr_raw = \<lparr>raw_from = Instant 5000, raw_to = Instant 7000\<rparr>\<rparr> 9000) 9000) = 7000"
  using roundtrip_whole_seconds [of "\<lparr>tr_from = 5000, tr_to = 7000,
         tr_raw = \<lparr>raw_from = Instant 5000, raw_to = Instant 7000\<rparr>\<rparr>" 9000]
  by simp

subsection \<open>The interval rounder\<close>

lemma first_match_at_bound:
  "sorted_wrt (<) (map fst l) \<Longrightarrow> i < length l \<Longrightarrow>
   first_match (Fin (fst (l ! i))) l = (if Suc i < length l then snd (l ! Suc i) else 31536000000)"
proof (induction l arbitrary: i)
  case Nil
  then show ?case by simp
next
  case (Cons p rest)
  obtain t v where p: "p = (t, v)" by (cases p)
  show ?case
  proof (cases i)
    case 0
    then show ?thesis using Cons.prems p by (cases rest) auto
  next
    case (Suc j)
    with Cons.prems have j: "j < length rest" by simp
    from Cons.prems have "sorted_wrt (<) (map fst rest)" by simp
    from Cons.IH [OF this j] have ih: "first_match (Fin (fst (rest ! j))) rest =
      (if Suc j < length rest then snd (rest ! Suc j) else 31536000000)" .
    from Cons.prems j p have "t < fst (rest ! j)" by auto
    then show ?thesis using ih p Suc by simp
  qed
qed

lemma first_match_first:
  "i < length l \<Longrightarrow> js_lt d (fst (l ! i)) \<Longrightarrow> \<forall>j<i. \<not> js_lt d (fst (l ! j)) \<Longrightarrow>
   first_match d l = snd (l ! i)"
proof (induction l arbitrary: i)
  case Nil
  then show ?case by simp
next
  case (Cons p rest)
  obtain t v where p: "p = (t, v)" by (cases p)
  show ?case
  proof (cases i)
    case 0
    then show ?thesis using Cons.prems p by simp
  next
    case (Suc k)
    from Cons.prems Suc have "\<not> js_lt d (fst ((p # rest) ! 0))" by blast
    then have nt: "\<not> js_lt d t" using p by simp
    have "\<forall>j<k. \<not> js_lt d (fst (rest ! j))"
    proof (intro allI impI)
      fix j assume "j < k"
      then have "Suc j < i" using Suc by simp
      with Cons.prems have "\<not> js_lt d (fst ((p # rest) ! Suc j))" by blast
      then show "\<not> js_lt d (fst (rest ! j))" by simp
    qed
    with Cons.IH [of k] Cons.prems Suc have "first_match d rest = snd (rest ! k)" by simp
    then show ?thesis using nt p Suc by simp
  qed
qed

lemma roundInterval_first_match: "roundInterval d = first_match d ladder"
  by (simp add: roundInterval_def ladder_def)

lemma ladder_sorted: "sorted_wrt (<) (map fst ladder)"
  by (simp add: ladder_def)

lemma js_lt_mono: "js_lt d a \<Longrightarrow> a \<le> b \<Longrightarrow> js_lt d b"
  by (cases d) auto

text \<open>
  C2: \<open>roundInterval\<close> is total and returns the value of the first comparison
  \<open>d < bound\<close> that holds in the ascending ladder of bounds; an input equal to a bound
  gets the bucket of the next comparison (10 gives 10, 15 gives 20, 35 gives 50); an input
  that is below no bound, NaN included, gets the largest bucket, 31536000000 ms.
\<close>

theorem roundInterval_ladder:
  "roundInterval d = first_match d ladder
   \<and> sorted_wrt (<) (map fst ladder)
   \<and> (\<forall>i<length ladder. js_lt d (fst (ladder ! i)) \<and> (\<forall>j<i. \<not> js_lt d (fst (ladder ! j)))
        \<longrightarrow> roundInterval d = snd (ladder ! i))
   \<and> (\<forall>i<length ladder. roundInterval (Fin (fst (ladder ! i))) = bucket_after i)
   \<and> roundInterval (Fin 10) = 10 \<and> roundInterval (Fin 15) = 20 \<and> roundInterval (Fin 35) = 50
   \<and> (\<not> js_lt d 3628800000 \<longrightarrow> roundInterval d = 31536000000)"
proof (intro conjI)
  show "roundInterval d = first_match d ladder" by (rule roundInterval_first_match)
  show "sorted_wrt (<) (map fst ladder)" by (rule ladder_sorted)
  show "\<forall>i<length ladder. js_lt d (fst (ladder ! i)) \<and> (\<forall>j<i. \<not> js_lt d (fst (ladder ! j)))
        \<longrightarrow> roundInterval d = snd (ladder ! i)"
    using first_match_first [of _ ladder d] by (simp add: roundInterval_first_match)
  show "\<forall>i<length ladder. roundInterval (Fin (fst (ladder ! i))) = bucket_after i"
    using first_match_at_bound [OF ladder_sorted]
    by (simp add: roundInterval_first_match bucket_after_def)
  show "roundInterval (Fin 10) = 10" by (simp add: roundInterval_def)
  show "roundInterval (Fin 15) = 20" by (simp add: roundInterval_def)
  show "roundInterval (Fin 35) = 50" by (simp add: roundInterval_def)
  show "\<not> js_lt d 3628800000 \<longrightarrow> roundInterval d = 31536000000"
  proof
    assume a: "\<not> js_lt d 3628800000"
    have "\<And>c. c \<le> 3628800000 \<Longrightarrow> \<not> js_lt d c" using a js_lt_mono by blast
    then show "roundInterval d = 31536000000" by (simp add: roundInterval_def)
  qed
qed

theorem roundInterval_ladder_witness:
  "13 < length ladder \<and> js_lt (Fin 36000) (fst (ladder ! 13))
   \<and> list_all (\<lambda>t. \<not> js_lt (Fin 36000) t) (take 13 (map fst ladder))
   \<and> roundInterval (Fin 36000) = snd (ladder ! 13) \<and> snd (ladder ! 13) = 30000
   \<and> roundInterval (Fin (fst (ladder ! 28))) = bucket_after 28 \<and> bucket_after 28 = 31536000000
   \<and> \<not> js_lt NaN 3628800000 \<and> roundInterval NaN = 31536000000"
proof -
  have l: "13 < length ladder" "28 < length ladder" by (simp_all add: ladder_def)
  have a: "js_lt (Fin 36000) (fst (ladder ! 13))" by (simp add: ladder_def)
  have b: "\<forall>j<13. \<not> js_lt (Fin 36000) (fst (ladder ! j))"
    by (simp add: ladder_def nth_Cons' less_Suc_eq numeral_eq_Suc)
  have v: "snd (ladder ! 13) = 30000" "bucket_after 28 = 31536000000"
    by (simp_all add: ladder_def bucket_after_def)
  have n: "\<not> js_lt NaN 3628800000" by simp
  have b': "list_all (\<lambda>t. \<not> js_lt (Fin 36000) t) (take 13 (map fst ladder))"
    by (simp add: ladder_def)
  from roundInterval_ladder [of "Fin 36000"] l a b
  have 1: "roundInterval (Fin 36000) = snd (ladder ! 13)" by blast
  from roundInterval_ladder [of NaN] l n
  have 2: "roundInterval (Fin (fst (ladder ! 28))) = bucket_after 28" "roundInterval NaN = 31536000000"
    by blast+
  show ?thesis using l a b' v n 1 2 by blast
qed

subsection \<open>Durations as text\<close>




















subsection \<open>Regular expressions\<close>

lemma regex_exec_SomeD:
  "regex_exec r s = Some m \<Longrightarrow> \<exists>i j. (j, m) \<in> set (rmatch r s (i, Map.empty))"
proof -
  assume a: "regex_exec r s = Some m"
  define all where "all = concat (map (\<lambda>i. rmatch r s (i, Map.empty)) [0..<Suc (length s)])"
  from a obtain j rest where "all = (j, m) # rest"
    unfolding regex_exec_def all_def [symmetric] by (cases all) auto
  then have "(j, m) \<in> set all" by simp
  then show ?thesis unfolding all_def by auto
qed

lemma regex_exec_NoneD:
  "regex_exec r s = None \<Longrightarrow> i \<le> length s \<Longrightarrow> rmatch r s (i, Map.empty) = []"
proof -
  assume a: "regex_exec r s = None" and i: "i \<le> length s"
  define all where "all = concat (map (\<lambda>i. rmatch r s (i, Map.empty)) [0..<Suc (length s)])"
  from a have "all = []"
    unfolding regex_exec_def all_def [symmetric] by (cases all) auto
  then have "\<forall>k\<in>set [0..<Suc (length s)]. rmatch r s (k, Map.empty) = []"
    unfolding all_def by simp
  moreover have "i \<in> set [0..<Suc (length s)]" using i unfolding set_upt by auto
  ultimately show ?thesis by blast
qed

lemma rmatch_Grp_D:
  "(j, m) \<in> set (rmatch (Grp n r) s (i, c)) \<Longrightarrow>
   \<exists>c'. (j, c') \<in> set (rmatch r s (i, c)) \<and> m = c'(n \<mapsto> take (j - i) (drop i s))"
  by auto

lemma rmatch_Seq_D:
  "(j, m) \<in> set (rmatch (Seq a b) s (i, c)) \<Longrightarrow>
   \<exists>k c'. (k, c') \<in> set (rmatch a s (i, c)) \<and> (j, m) \<in> set (rmatch b s (k, c'))"
  by auto

lemma take_one_drop: "k < length s \<Longrightarrow> take (Suc k - k) (drop k s) = [s ! k]"
  by (simp add: take_Suc_conv_app_nth Cons_nth_drop_Suc [symmetric])

subsection \<open>The interval parser\<close>

lemma unit_alternatives:
  "(j, m) \<in> set (rmatch (Alt (Lit ''ms'') (Cls (OneOf ''Mwdhmsy''))) s (k, c)) \<Longrightarrow>
   m = c \<and> take (j - k) (drop k s) \<in> set (map fst intervals_in_seconds)"
proof -
  assume "(j, m) \<in> set (rmatch (Alt (Lit ''ms'') (Cls (OneOf ''Mwdhmsy''))) s (k, c))"
  then consider (ms) "j = k + 2" "m = c" "take 2 (drop k s) = ''ms''"
    | (one) "j = Suc k" "m = c" "k < length s" "s ! k \<in> set ''Mwdhmsy''"
    by (auto split: if_splits simp: numeral_2_eq_2)
  then show ?thesis
  proof cases
    case ms
    then show ?thesis by (simp add: intervals_in_seconds_def)
  next
    case one
    from one(3) have "take (Suc k - k) (drop k s) = [s ! k]" by (rule take_one_drop)
    with one show ?thesis by (auto simp: intervals_in_seconds_def)
  qed
qed

lemma interval_regex_unit:
  "(j, m) \<in> set (rmatch interval_regex s (i, c)) \<Longrightarrow>
   \<exists>k unit. m 2 = Some unit \<and> unit = take (j - k) (drop k s)
     \<and> unit \<in> set (map fst intervals_in_seconds)"
proof -
  assume a: "(j, m) \<in> set (rmatch interval_regex s (i, c))"
  from rmatch_Grp_D [OF a [unfolded interval_regex_def]]
  obtain c0 where c0: "(j, c0) \<in> set (rmatch
      (Seq (Grp 1 (Seq (Opt (Lit ''-'')) (Seq (Plus Digit) (Opt (Seq (Lit ''.'') (Plus Digit))))))
           (Grp 2 (Alt (Lit ''ms'') (Cls (OneOf ''Mwdhmsy''))))) s (i, c))"
    and m: "m = c0(0 \<mapsto> take (j - i) (drop i s))" by blast
  from rmatch_Seq_D [OF c0] obtain k c1 where
    "(j, c0) \<in> set (rmatch (Grp 2 (Alt (Lit ''ms'') (Cls (OneOf ''Mwdhmsy'')))) s (k, c1))"
    by blast
  from rmatch_Grp_D [OF this] obtain c2 where
    u: "(j, c2) \<in> set (rmatch (Alt (Lit ''ms'') (Cls (OneOf ''Mwdhmsy''))) s (k, c1))"
    and c0': "c0 = c2(2 \<mapsto> take (j - k) (drop k s))" by blast
  from unit_alternatives [OF u]
  have "take (j - k) (drop k s) \<in> set (map fst intervals_in_seconds)" by blast
  moreover have "m 2 = Some (take (j - k) (drop k s))" unfolding m c0' by simp
  ultimately show ?thesis by blast
qed

lemma unit_in_table:
  "unit \<in> set (map fst intervals_in_seconds) \<Longrightarrow> \<exists>sec. map_of intervals_in_seconds unit = Some sec"
  by (cases "map_of intervals_in_seconds unit") (auto simp: map_of_eq_None_iff)

lemma messages_differ:
  "invalid_interval_message \<noteq> ''describeInterval failed: invalid interval string''"
  by (simp add: invalid_interval_message_def)

text \<open>
  C7: whenever \<open>interval_regex\<close> matches, its second group is a key of
  \<open>intervals_in_seconds\<close>; so the lookup in \<open>describeInterval\<close> finds a value and the
  second \<open>throw\<close>, "describeInterval failed: invalid interval string", is never
  executed.
\<close>

theorem describeInterval_second_throw_unreachable:
  "(regex_exec interval_regex str = Some matches \<longrightarrow>
      (\<exists>unit sec. matches 2 = Some unit \<and> map_of intervals_in_seconds unit = Some sec))
   \<and> describeInterval str \<noteq> Inl (Error ''describeInterval failed: invalid interval string'')"
proof -
  have key: "\<exists>unit sec. m 2 = Some unit \<and> map_of intervals_in_seconds unit = Some sec"
    if "regex_exec interval_regex str = Some m" for m
  proof -
    from regex_exec_SomeD [OF that] obtain i j where
      "(j, m) \<in> set (rmatch interval_regex str (i, Map.empty))" by blast
    from interval_regex_unit [OF this] obtain unit where
      "m 2 = Some unit" "unit \<in> set (map fst intervals_in_seconds)" by blast
    with unit_in_table show ?thesis by blast
  qed
  have "describeInterval str \<noteq> Inl (Error ''describeInterval failed: invalid interval string'')"
  proof (cases "regex_exec interval_regex str")
    case None
    then show ?thesis using messages_differ by (simp add: describeInterval_def)
  next
    case (Some m)
    from key [OF Some] obtain unit sec where
      "m 2 = Some unit" "map_of intervals_in_seconds unit = Some sec" by blast
    with Some show ?thesis by (simp add: describeInterval_def)
  qed
  with key show ?thesis by blast
qed

theorem describeInterval_second_throw_unreachable_witness:
  "map_option (\<lambda>m. m 2) (regex_exec interval_regex ''5m'') = Some (Some ''m'')
   \<and> map_of intervals_in_seconds ''m'' = Some 60
   \<and> describeInterval ''5m'' \<noteq> Inl (Error ''describeInterval failed: invalid interval string'')"
proof -
  have a: "map_option (\<lambda>m. m 2) (regex_exec interval_regex ''5m'') = Some (Some ''m'')"
    by code_simp
  then obtain m where m: "regex_exec interval_regex ''5m'' = Some m" "m 2 = Some ''m''"
    by auto
  from describeInterval_second_throw_unreachable [of "''5m''" m] m
  have "map_of intervals_in_seconds ''m'' \<noteq> None"
    and b: "describeInterval ''5m'' \<noteq> Inl (Error ''describeInterval failed: invalid interval string'')"
    by auto
  moreover have "map_of intervals_in_seconds ''m'' = Some 60"
    by (simp add: intervals_in_seconds_def)
  ultimately show ?thesis using a by blast
qed

subsection \<open>\<open>Number(string)\<close> and \<open>parseInt(string, 10)\<close>\<close>

text \<open>The truth of a number, in a form that evaluates without the power on integers.\<close>

lemma js_truthy_code [code]:
  "js_truthy (Fin q) = (if q = 0 then False else if 1 \<le> \<bar>q\<bar> then True else 1 < \<bar>q\<bar> * 2 ^ 1075)"
  "js_truthy PInf = True"
  "js_truthy NInf = True"
  "js_truthy NaN = False"
proof -
  have "1 < \<bar>q\<bar> * 2 ^ 1075" if "1 \<le> \<bar>q\<bar>"
  proof -
    have "(1::rat) < 2 ^ 1075" by (rule one_less_power) simp_all
    also have "\<dots> = 1 * 2 ^ 1075" by simp
    also have "\<dots> \<le> \<bar>q\<bar> * 2 ^ 1075" using that by (intro mult_right_mono) simp_all
    finally show ?thesis .
  qed
  then show "js_truthy (Fin q) =
    (if q = 0 then False else if 1 \<le> \<bar>q\<bar> then True else 1 < \<bar>q\<bar> * 2 ^ 1075)"
    by simp
qed simp_all

text \<open>
  What \<open>describeInterval\<close> does on a string of decimal digits: the value zero is the
  only one that is not taken as a count of seconds.
\<close>

lemma digit_not_ws: "is_digit c \<Longrightarrow> \<not> is_ws c"
  by (auto simp: is_digit_def is_ws_def)

lemma digits_trim: "ds \<noteq> [] \<Longrightarrow> list_all is_digit ds \<Longrightarrow> trim ds = ds"
proof -
  assume ne: "ds \<noteq> []" and d: "list_all is_digit ds"
  from ne d have "\<not> is_ws (hd ds)" by (cases ds) (auto simp: digit_not_ws)
  with ne have 1: "dropWhile is_ws ds = ds" by (cases ds) auto
  from ne d have "\<not> is_ws (last ds)" by (auto simp: list_all_iff digit_not_ws)
  with ne have "\<not> is_ws (hd (rev ds))" by (simp add: hd_rev)
  with ne have 2: "dropWhile is_ws (rev ds) = rev ds" by (cases "rev ds") auto
  show ?thesis by (simp add: trim_def 1 2)
qed

lemma digits_no_radix_prefix:
  "list_all is_digit ds \<Longrightarrow> take 2 ds \<notin> {''0x'', ''0X'', ''0o'', ''0O'', ''0b'', ''0B''}"
proof (cases ds)
  case Nil
  then show ?thesis by simp
next
  case (Cons a r)
  assume d: "list_all is_digit ds"
  show ?thesis
  proof (cases r)
    case Nil
    with Cons show ?thesis by simp
  next
    case c2: (Cons b r')
    with Cons d have "is_digit b" by simp
    then have "b \<notin> set ''xXoObB''" by (auto simp: is_digit_def)
    with Cons c2 show ?thesis by auto
  qed
qed

lemma digits_unsigned_decimal:
  "ds \<noteq> [] \<Longrightarrow> list_all is_digit ds \<Longrightarrow> unsigned_decimal ds = Some (of_nat (digits_val 10 ds))"
proof -
  assume ne: "ds \<noteq> []" and d: "list_all is_digit ds"
  from d have t: "takeWhile is_digit ds = ds" and r: "dropWhile is_digit ds = []"
    by (simp_all add: list_all_iff)
  show ?thesis
    by (simp add: unsigned_decimal_def t r ne exponent_part_def pow10_def digits_val_def)
qed

lemma digits_split_sign:
  "ds \<noteq> [] \<Longrightarrow> list_all is_digit ds \<Longrightarrow> split_sign ds = (1, ds)"
  by (cases ds) (auto simp: split_sign_def is_digit_def)

lemma digits_Number:
  "ds \<noteq> [] \<Longrightarrow> list_all is_digit ds \<Longrightarrow> js_Number ds = Fin (of_nat (digits_val 10 ds))"
proof -
  assume ne: "ds \<noteq> []" and d: "list_all is_digit ds"
  from d ne have "ds \<noteq> ''Infinity''" by (auto simp: is_digit_def)
  then have "decimal_literal ds = Fin (of_nat (digits_val 10 ds))"
    by (simp add: decimal_literal_def digits_split_sign [OF ne d] digits_unsigned_decimal [OF ne d])
  then show ?thesis
    using digits_no_radix_prefix [OF d] ne by (simp add: js_Number_def digits_trim [OF ne d])
qed

lemma digits_parseInt:
  "ds \<noteq> [] \<Longrightarrow> list_all is_digit ds \<Longrightarrow> parseInt10 ds = Some (int (digits_val 10 ds))"
proof -
  assume ne: "ds \<noteq> []" and d: "list_all is_digit ds"
  from ne d have "\<not> is_ws (hd ds)" by (cases ds) (auto simp: digit_not_ws)
  with ne have w: "dropWhile is_ws ds = ds" by (cases ds) auto
  from d have t: "takeWhile is_digit ds = ds" by (simp add: list_all_iff)
  show ?thesis
    by (simp add: parseInt10_def w digits_split_sign [OF ne d] t ne)
qed

lemma truthy_of_nat: "js_truthy (Fin (of_nat n)) = (n \<noteq> 0)"
proof (cases "n = 0")
  case True
  then show ?thesis by simp
next
  case False
  then have "(1::rat) \<le> \<bar>of_nat n\<bar>" by simp
  with False show ?thesis unfolding js_truthy_code(1) by simp
qed

lemma units_not_digits:
  "unit \<in> set (map fst intervals_in_seconds) \<Longrightarrow> unit \<noteq> [] \<and> \<not> is_digit (hd unit)"
  by (auto simp: intervals_in_seconds_def is_digit_def)

lemma digits_no_unit:
  "list_all is_digit ds \<Longrightarrow> regex_exec interval_regex ds = None"
proof (rule ccontr)
  assume d: "list_all is_digit ds" and "regex_exec interval_regex ds \<noteq> None"
  then obtain m where "regex_exec interval_regex ds = Some m" by auto
  from regex_exec_SomeD [OF this] obtain i j where
    "(j, m) \<in> set (rmatch interval_regex ds (i, Map.empty))" by blast
  from interval_regex_unit [OF this] obtain k unit where
    u: "unit = take (j - k) (drop k ds)" "unit \<in> set (map fst intervals_in_seconds)" by blast
  from units_not_digits [OF u(2)] have ne: "unit \<noteq> []" and nd: "\<not> is_digit (hd unit)" by blast+
  from ne have "hd unit \<in> set unit" by simp
  also have "set unit \<subseteq> set ds" unfolding u(1) by (meson set_take_subset set_drop_subset subset_trans)
  finally have "is_digit (hd unit)" using d by (simp add: list_all_iff)
  with nd show False by blast
qed

lemma describeInterval_digits:
  "ds \<noteq> [] \<Longrightarrow> list_all is_digit ds \<Longrightarrow>
   describeInterval ds =
     (if digits_val 10 ds = 0 then Inl (Error invalid_interval_message)
      else Inr \<lparr>info_sec = 1, info_type = ''s'', info_count = Some (int (digits_val 10 ds))\<rparr>)"
  by (simp add: describeInterval_def digits_Number digits_parseInt truthy_of_nat digits_no_unit)

lemma describeInterval_throws_iff:
  "(\<exists>e. describeInterval str = Inl e) \<longleftrightarrow>
   \<not> js_truthy (js_Number str) \<and> regex_exec interval_regex str = None"
proof (cases "js_truthy (js_Number str)")
  case True
  then show ?thesis by (simp add: describeInterval_def)
next
  case False
  show ?thesis
  proof (cases "regex_exec interval_regex str")
    case None
    with False show ?thesis by (simp add: describeInterval_def)
  next
    case (Some m)
    from regex_exec_SomeD [OF Some] obtain i j where
      "(j, m) \<in> set (rmatch interval_regex str (i, Map.empty))" by blast
    from interval_regex_unit [OF this] obtain k unit where
      "m 2 = Some unit" "unit \<in> set (map fst intervals_in_seconds)" by blast
    moreover from this unit_in_table obtain sec where
      "map_of intervals_in_seconds unit = Some sec" by blast
    ultimately show ?thesis using False Some by (simp add: describeInterval_def)
  qed
qed

text \<open>
  C3: \<open>describeInterval\<close> takes every purely numeric string as a count of seconds,
  and throws exactly when the string has neither the numeric nor the number-and-unit
  form. The code tests \<open>Number(str)\<close> for truth, and \<open>Number("0")\<close> is zero, which is
  false: the unit-less "0" is sent on to the regular expression, which wants a unit, and
  is rejected with the message that asks for a unit-less string, while "0s" and "90" are
  accepted.
\<close>

theorem describeInterval_zero_throws:
  "describeInterval ''0'' = Inl (Error invalid_interval_message)
   \<and> list_all is_digit ''0''
   \<and> describeInterval ''0s'' = Inr \<lparr>info_sec = 1, info_type = ''s'', info_count = Some 0\<rparr>
   \<and> describeInterval ''90'' = Inr \<lparr>info_sec = 1, info_type = ''s'', info_count = Some 90\<rparr>
   \<and> describeInterval ''5m'' = Inr \<lparr>info_sec = 60, info_type = ''m'', info_count = Some 5\<rparr>
   \<and> describeInterval ''bogus'' = Inl (Error invalid_interval_message)"
proof (intro conjI)
  show "describeInterval ''0'' = Inl (Error invalid_interval_message)" by code_simp
  show "list_all is_digit ''0''" by code_simp
  show "describeInterval ''0s'' = Inr \<lparr>info_sec = 1, info_type = ''s'', info_count = Some 0\<rparr>"
    by code_simp
  show "describeInterval ''90'' = Inr \<lparr>info_sec = 1, info_type = ''s'', info_count = Some 90\<rparr>"
    by code_simp
  show "describeInterval ''5m'' = Inr \<lparr>info_sec = 60, info_type = ''m'', info_count = Some 5\<rparr>"
    by code_simp
  show "describeInterval ''bogus'' = Inl (Error invalid_interval_message)" by code_simp
qed

subsection \<open>The interval for a range and a resolution\<close>

lemma roundInterval_ge_1: "1 \<le> roundInterval d"
  by (simp add: roundInterval_def)

lemma calculateInterval_default:
  "calculateInterval r res None =
     Inr \<lparr>intervalMs = roundInterval (js_div (of_int (tr_to r - tr_from r)) res),
          interval = secondsToHms (roundInterval (js_div (of_int (tr_to r - tr_from r)) res) / 1000)\<rparr>"
  using roundInterval_ge_1 [of "js_div (of_int (tr_to r - tr_from r)) res"]
  by (simp add: calculateInterval_def Let_def)

lemma calculateInterval_limit:
  "l \<noteq> [] \<Longrightarrow> intervalToMs l = Inr (Some q) \<Longrightarrow>
   calculateInterval r res (Some l) =
     Inr \<lparr>intervalMs = max q (roundInterval (js_div (of_int (tr_to r - tr_from r)) res)),
          interval = secondsToHms
            (max q (roundInterval (js_div (of_int (tr_to r - tr_from r)) res)) / 1000)\<rparr>"
  by (simp add: calculateInterval_def Let_def max_def)

lemma calculateInterval_throws:
  "l \<noteq> [] \<Longrightarrow> intervalToMs l = Inl e \<Longrightarrow> calculateInterval r res (Some l) = Inl e"
  by (simp add: calculateInterval_def)

lemma calculateInterval_empty: "calculateInterval r res (Some []) = calculateInterval r res None"
  by (simp add: calculateInterval_def)

lemma calculateInterval_nan:
  "l \<noteq> [] \<Longrightarrow> intervalToMs l = Inr None \<Longrightarrow>
   calculateInterval r res (Some l) =
     Inr \<lparr>intervalMs = roundInterval (js_div (of_int (tr_to r - tr_from r)) res),
          interval = secondsToHms (roundInterval (js_div (of_int (tr_to r - tr_from r)) res) / 1000)\<rparr>"
  by (simp add: calculateInterval_def Let_def)

text \<open>
  C5: \<open>calculateInterval\<close> divides the length of the range by the resolution, rounds
  the quotient with \<open>roundInterval\<close>, raises the result to the low limit (1 ms when no
  limit is given, which never raises it; the limit in milliseconds parsed by
  \<open>intervalToMs\<close> otherwise) and returns it with its label from \<open>secondsToHms\<close>. An
  empty limit string counts as no limit, a limit whose count is NaN raises nothing, and a
  limit that \<open>describeInterval\<close> rejects makes the call throw. For the range from 0 to
  3600000 and resolution 100 the quotient is 36000 and the interval is 30000 ms.
\<close>

theorem calculateInterval_rounds_and_clamps:
  "calculateInterval r res None =
     Inr \<lparr>intervalMs = max 1 (roundInterval (js_div (of_int (tr_to r - tr_from r)) res)),
          interval = secondsToHms
            (max 1 (roundInterval (js_div (of_int (tr_to r - tr_from r)) res)) / 1000)\<rparr>
   \<and> max 1 (roundInterval (js_div (of_int (tr_to r - tr_from r)) res))
       = roundInterval (js_div (of_int (tr_to r - tr_from r)) res)
   \<and> (l \<noteq> [] \<and> intervalToMs l = Inr (Some q) \<longrightarrow>
        calculateInterval r res (Some l) =
          Inr \<lparr>intervalMs = max q (roundInterval (js_div (of_int (tr_to r - tr_from r)) res)),
               interval = secondsToHms
                 (max q (roundInterval (js_div (of_int (tr_to r - tr_from r)) res)) / 1000)\<rparr>)
   \<and> (l \<noteq> [] \<and> intervalToMs l = Inl e \<longrightarrow> calculateInterval r res (Some l) = Inl e)
   \<and> calculateInterval r res (Some []) = calculateInterval r res None
   \<and> (l \<noteq> [] \<and> intervalToMs l = Inr None \<longrightarrow>
        calculateInterval r res (Some l) =
          Inr \<lparr>intervalMs = roundInterval (js_div (of_int (tr_to r - tr_from r)) res),
               interval = secondsToHms
                 (roundInterval (js_div (of_int (tr_to r - tr_from r)) res) / 1000)\<rparr>)
   \<and> js_div (of_int (3600000 - 0)) 100 = Fin 36000
   \<and> calculateInterval
        \<lparr>tr_from = 0, tr_to = 3600000,
         tr_raw = \<lparr>raw_from = Instant 0, raw_to = Instant 3600000\<rparr>\<rparr> 100 None
       = Inr \<lparr>intervalMs = 30000, interval = ''30s''\<rparr>"
proof (intro conjI impI)
  have m: "max 1 (roundInterval d) = roundInterval d" for d
    using roundInterval_ge_1 [of d] by (simp add: max_def)
  show "calculateInterval r res None =
     Inr \<lparr>intervalMs = max 1 (roundInterval (js_div (of_int (tr_to r - tr_from r)) res)),
          interval = secondsToHms
            (max 1 (roundInterval (js_div (of_int (tr_to r - tr_from r)) res)) / 1000)\<rparr>"
    unfolding m by (rule calculateInterval_default)
  show "max 1 (roundInterval (js_div (of_int (tr_to r - tr_from r)) res))
       = roundInterval (js_div (of_int (tr_to r - tr_from r)) res)"
    by (rule m)
  show "calculateInterval r res (Some l) =
          Inr \<lparr>intervalMs = max q (roundInterval (js_div (of_int (tr_to r - tr_from r)) res)),
               interval = secondsToHms
                 (max q (roundInterval (js_div (of_int (tr_to r - tr_from r)) res)) / 1000)\<rparr>"
    if "l \<noteq> [] \<and> intervalToMs l = Inr (Some q)"
    using that calculateInterval_limit by blast
  show "calculateInterval r res (Some l) = Inl e" if "l \<noteq> [] \<and> intervalToMs l = Inl e"
    using that calculateInterval_throws by blast
  show "calculateInterval r res (Some []) = calculateInterval r res None"
    by (rule calculateInterval_empty)
  show "calculateInterval r res (Some l) =
          Inr \<lparr>intervalMs = roundInterval (js_div (of_int (tr_to r - tr_from r)) res),
               interval = secondsToHms
                 (roundInterval (js_div (of_int (tr_to r - tr_from r)) res) / 1000)\<rparr>"
    if "l \<noteq> [] \<and> intervalToMs l = Inr None"
    using that calculateInterval_nan by blast
  show "js_div (of_int (3600000 - 0)) 100 = Fin 36000" by (simp add: js_div_def)
  show "calculateInterval
        \<lparr>tr_from = 0, tr_to = 3600000,
         tr_raw = \<lparr>raw_from = Instant 0, raw_to = Instant 3600000\<rparr>\<rparr> 100 None
       = Inr \<lparr>intervalMs = 30000, interval = ''30s''\<rparr>"
    by code_simp
qed

theorem calculateInterval_rounds_and_clamps_witness:
  "''1m'' \<noteq> [] \<and> intervalToMs ''1m'' = Inr (Some 60000)
   \<and> calculateInterval
        \<lparr>tr_from = 0, tr_to = 3600000,
         tr_raw = \<lparr>raw_from = Instant 0, raw_to = Instant 3600000\<rparr>\<rparr> 100 (Some ''1m'')
       = Inr \<lparr>intervalMs = 60000, interval = ''1m''\<rparr>
   \<and> intervalToMs ''1x'' = Inl (Error invalid_interval_message)
   \<and> calculateInterval
        \<lparr>tr_from = 0, tr_to = 3600000,
         tr_raw = \<lparr>raw_from = Instant 0, raw_to = Instant 3600000\<rparr>\<rparr> 100 (Some ''1x'')
       = Inl (Error invalid_interval_message)
   \<and> intervalToMs ''Infinity'' = Inr None
   \<and> calculateInterval
        \<lparr>tr_from = 0, tr_to = 3600000,
         tr_raw = \<lparr>raw_from = Instant 0, raw_to = Instant 3600000\<rparr>\<rparr> 100 (Some ''Infinity'')
       = Inr \<lparr>intervalMs = 30000, interval = ''30s''\<rparr>"
proof -
  have a: "intervalToMs ''1m'' = Inr (Some 60000)" by code_simp
  have b: "intervalToMs ''1x'' = Inl (Error invalid_interval_message)" by code_simp
  have n: "intervalToMs ''Infinity'' = Inr None" by code_simp
  have c: "roundInterval (js_div (of_int (3600000 - 0)) 100) = 30000"
    by (simp add: js_div_def roundInterval_def)
  have d: "secondsToHms (60000 / 1000) = ''1m''" "secondsToHms (30000 / 1000) = ''30s''"
    by code_simp+
  from calculateInterval_rounds_and_clamps
    [of "\<lparr>tr_from = 0, tr_to = 3600000,
          tr_raw = \<lparr>raw_from = Instant 0, raw_to = Instant 3600000\<rparr>\<rparr>" 100 "''1m''" 60000] a c d
  have 1: "calculateInterval
        \<lparr>tr_from = 0, tr_to = 3600000,
         tr_raw = \<lparr>raw_from = Instant 0, raw_to = Instant 3600000\<rparr>\<rparr> 100 (Some ''1m'')
       = Inr \<lparr>intervalMs = 60000, interval = ''1m''\<rparr>" by simp
  from calculateInterval_rounds_and_clamps
    [of "\<lparr>tr_from = 0, tr_to = 3600000,
          tr_raw = \<lparr>raw_from = Instant 0, raw_to = Instant 3600000\<rparr>\<rparr>" 100 "''1x''" _
        "Error invalid_interval_message"] b
  have 2: "calculateInterval
        \<lparr>tr_from = 0, tr_to = 3600000,
         tr_raw = \<lparr>raw_from = Instant 0, raw_to = Instant 3600000\<rparr>\<rparr> 100 (Some ''1x'')
       = Inl (Error invalid_interval_message)" by simp
  from calculateInterval_rounds_and_clamps
    [of "\<lparr>tr_from = 0, tr_to = 3600000,
          tr_raw = \<lparr>raw_from = Instant 0, raw_to = Instant 3600000\<rparr>\<rparr>" 100 "''Infinity''"] n c d
  have 3: "calculateInterval
        \<lparr>tr_from = 0, tr_to = 3600000,
         tr_raw = \<lparr>raw_from = Instant 0, raw_to = Instant 3600000\<rparr>\<rparr> 100 (Some ''Infinity'')
       = Inr \<lparr>intervalMs = 30000, interval = ''30s''\<rparr>" by simp
  show ?thesis using a b n 1 2 3 by simp
qed

subsection \<open>The catalog of ranges\<close>

lemma fold_add_frame_SomeD:
  "fold add_frame fs m k = Some v \<Longrightarrow> (v \<in> set fs \<and> frame_key v = k) \<or> m k = Some v"
proof (induction fs arbitrary: m)
  case Nil
  then show ?case by simp
next
  case (Cons f fs)
  from Cons.prems have "fold add_frame fs (add_frame f m) k = Some v" by simp
  from Cons.IH [OF this] show ?case
    by (auto simp: add_frame_def split: if_splits)
qed

lemma rangeIndex_SomeD:
  "rangeIndex k = Some v \<Longrightarrow> v \<in> set (rangeOptions @ hiddenRangeOptions) \<and> frame_key v = k"
proof -
  assume "rangeIndex k = Some v"
  then have "fold add_frame hiddenRangeOptions (fold add_frame rangeOptions Map.empty) k = Some v"
    by (simp add: rangeIndex_def)
  from fold_add_frame_SomeD [OF this] show ?thesis
    using fold_add_frame_SomeD [of rangeOptions Map.empty k v] by auto
qed

lemma to_now_sources_eq:
  "to_now_sources =
    [''now/d'', ''now/w'', ''now/M'', ''now/y'', ''now-5m'', ''now-15m'', ''now-30m'', ''now-1h'',
     ''now-3h'', ''now-6h'', ''now-12h'', ''now-24h'', ''now-2d'', ''now-7d'', ''now-30d'',
     ''now-90d'', ''now-6M'', ''now-1y'', ''now-2y'', ''now-5y'', ''now/fQ'', ''now/fy'']"
  by code_simp

lemma rangeIndex_to_now:
  "rangeIndex (e @ '' to now'') = Some v \<Longrightarrow> e \<in> set to_now_sources"
proof -
  assume "rangeIndex (e @ '' to now'') = Some v"
  from rangeIndex_SomeD [OF this]
  have v: "v \<in> set (rangeOptions @ hiddenRangeOptions)" and k: "frame_key v = e @ '' to now''"
    by blast+
  have "drop (length (frame_key v) - 7) (frame_key v) = '' to now''"
    and "take (length (frame_key v) - 7) (frame_key v) = e"
    unfolding k by simp_all
  with v show ?thesis unfolding to_now_sources_def by force
qed

lemma presets_valid: "list_all (\<lambda>v. opt_invalid v = None) (rangeOptions @ hiddenRangeOptions)"
  by (simp add: rangeOptions_def hiddenRangeOptions_def preset_def)

lemma presets_from_now:
  "list_all (\<lambda>v. opt_from v = ''now'' \<longrightarrow> take 2 (opt_display v) = ''Pr'')
     (rangeOptions @ hiddenRangeOptions)"
  by (simp add: rangeOptions_def hiddenRangeOptions_def preset_def)

lemma future_presets:
  "list_all (\<lambda>v. opt_from v = ''now'' \<and> take 4 (opt_to v) = ''now+'') hiddenRangeOptions"
  by (simp add: hiddenRangeOptions_def preset_def)

lemma sources_past:
  "list_all (\<lambda>e. take 1 e \<noteq> ''+'' \<and> take 4 e \<noteq> ''now+'') to_now_sources"
  unfolding to_now_sources_eq by simp

lemma sources_units:
  "list_all (\<lambda>e. case regex_exec range_regex e of
                    None \<Rightarrow> True
                  | Some parts \<Rightarrow>
                      (case parts 3 of None \<Rightarrow> False | Some u \<Rightarrow> u \<in> set (map fst spans)))
     to_now_sources"
  unfolding to_now_sources_eq by code_simp

subsection \<open>Describing a range expression\<close>

lemma indexOf_at_lower: "indexOf_at s t i = - 1 \<or> int i \<le> indexOf_at s t i"
proof (induction s arbitrary: i)
  case Nil
  then show ?case by simp
next
  case (Cons c cs)
  from Cons [of "Suc i"] show ?case by auto
qed

lemma indexOf_zero: "indexOf s t = 0 \<Longrightarrow> prefix t s"
proof (cases s)
  case Nil
  assume "indexOf s t = 0"
  with Nil show ?thesis by (simp add: indexOf_def split: if_splits)
next
  case (Cons c cs)
  assume a: "indexOf s t = 0"
  from indexOf_at_lower [of cs t "Suc 0"] have "indexOf_at cs t (Suc 0) \<noteq> 0" by auto
  with a Cons show ?thesis by (simp add: indexOf_def split: if_splits)
qed

lemma plus_first: "indexOf expr ''+'' = 0 \<Longrightarrow> take 1 expr = ''+''"
proof -
  assume "indexOf expr ''+'' = 0"
  then have "prefix ''+'' expr" by (rule indexOf_zero)
  then show ?thesis by (auto simp: prefix_def)
qed

lemma normalized_future:
  "indexOf expr ''+'' = 0 \<Longrightarrow>
   take 1 (normalized expr) = ''+'' \<or> take 4 (normalized expr) = ''now+''"
proof -
  assume a: "indexOf expr ''+'' = 0"
  from plus_first [OF a] obtain r where "expr = CHR ''+'' # r" by (cases expr) auto
  then show ?thesis using a by (simp add: normalized_def)
qed

text \<open>The four ways through \<open>describeTextRange\<close>.\<close>

lemma describeTextRange_hit:
  "rangeIndex (normalized expr @ '' to now'') = Some v \<Longrightarrow> describeTextRange expr = v"
  by (simp add: describeTextRange_def normalized_def Let_def)

lemma describeTextRange_invalid:
  "rangeIndex (normalized expr @ '' to now'') = None \<Longrightarrow>
   regex_exec range_regex (normalized expr) = None \<Longrightarrow>
   describeTextRange expr =
     (if indexOf expr ''+'' \<noteq> 0
      then \<lparr>opt_from = normalized expr, opt_to = ''now'',
            opt_display = normalized expr @ '' to '' @ ''now'',
            opt_section = None, opt_invalid = Some True\<rparr>
      else \<lparr>opt_from = ''now'', opt_to = normalized expr,
            opt_display = ''now'' @ '' to '' @ normalized expr,
            opt_section = None, opt_invalid = Some True\<rparr>)"
  by (simp add: describeTextRange_def normalized_def Let_def)

lemma describeTextRange_no_span:
  "rangeIndex (normalized expr @ '' to now'') = None \<Longrightarrow>
   regex_exec range_regex (normalized expr) = Some parts \<Longrightarrow>
   (case parts 3 of None \<Rightarrow> None | Some u \<Rightarrow> map_of spans u) = None \<Longrightarrow>
   describeTextRange expr =
     (if indexOf expr ''+'' \<noteq> 0
      then \<lparr>opt_from = normalized expr, opt_to = ''now'', opt_display = [],
            opt_section = None, opt_invalid = None\<rparr>
      else \<lparr>opt_from = ''now'', opt_to = normalized expr, opt_display = [],
            opt_section = None, opt_invalid = None\<rparr>)"
  by (simp add: describeTextRange_def normalized_def Let_def)

lemma describeTextRange_span:
  "rangeIndex (normalized expr @ '' to now'') = None \<Longrightarrow>
   regex_exec range_regex (normalized expr) = Some parts \<Longrightarrow>
   (case parts 3 of None \<Rightarrow> None | Some u \<Rightarrow> map_of spans u) = Some sp \<Longrightarrow>
   describeTextRange expr =
     (if indexOf expr ''+'' \<noteq> 0
      then \<lparr>opt_from = normalized expr, opt_to = ''now'',
            opt_display = ''Last ''
              @ num_text (case parts 2 of None \<Rightarrow> None | Some n \<Rightarrow> parseInt10 n) @ '' ''
              @ span_display sp
              @ (if gt_one (case parts 2 of None \<Rightarrow> None | Some n \<Rightarrow> parseInt10 n)
                 then ''s'' else []),
            opt_section = span_section sp, opt_invalid = None\<rparr>
      else \<lparr>opt_from = ''now'', opt_to = normalized expr,
            opt_display = ''Next ''
              @ num_text (case parts 2 of None \<Rightarrow> None | Some n \<Rightarrow> parseInt10 n) @ '' ''
              @ span_display sp
              @ (if gt_one (case parts 2 of None \<Rightarrow> None | Some n \<Rightarrow> parseInt10 n)
                 then ''s'' else []),
            opt_section = span_section sp, opt_invalid = None\<rparr>)"
  by (simp add: describeTextRange_def normalized_def Let_def)

lemma describeTextRange_invalid_iff:
  "opt_invalid (describeTextRange expr) = Some True \<longleftrightarrow>
   rangeIndex (normalized expr @ '' to now'') = None
   \<and> regex_exec range_regex (normalized expr) = None"
proof (cases "rangeIndex (normalized expr @ '' to now'')")
  case (Some v)
  from rangeIndex_SomeD [OF Some] presets_valid have "opt_invalid v = None"
    by (auto simp: list_all_iff)
  with Some show ?thesis by (simp add: describeTextRange_hit)
next
  case None
  show ?thesis
  proof (cases "regex_exec range_regex (normalized expr)")
    case n: None
    with None show ?thesis by (simp add: describeTextRange_invalid)
  next
    case (Some parts)
    show ?thesis
    proof (cases "case parts 3 of None \<Rightarrow> None | Some u \<Rightarrow> map_of spans u")
      case n: None
      from describeTextRange_no_span [OF None Some n] Some show ?thesis by simp
    next
      case s: (Some sp)
      from describeTextRange_span [OF None Some s] Some show ?thesis by simp
    qed
  qed
qed

text \<open>
  C4, as stated: \<open>describeTextRange("now-3d/d")\<close> is invalid, with the display
  "now-3d/d to now". It is not: the pattern is anchored at the start only, it matches
  the prefix "now-3d", and the display is "Last 3 dias".
\<close>

theorem describeTextRange_rounded_counterexample:
  "opt_display (describeTextRange ''now-3d/d'') \<noteq> ''now-3d/d to now''
   \<and> opt_invalid (describeTextRange ''now-3d/d'') \<noteq> Some True"
  by code_simp

text \<open>
  C4, amended: \<open>describeTextRange("6h")\<close> is the preset of the catalog found under
  "now-6h to now", whose display is the code point 0xDA followed by "ltimas 6 horas".
  \<open>describeTextRange("now-3d/d")\<close> has no preset; the pattern matches its prefix
  "now-3d", and the result is from "now-3d/d" to "now" with the display
  "Last 3 dias" and no invalid flag. A result is marked invalid exactly when there is no
  preset and the pattern does not match the start of the expression; its display is
  then "{from} to {to}", as for "now/d+6h".
\<close>

theorem describeTextRange_preset_and_fallback:
  "rangeIndex ''now-6h to now'' = Some (preset ''now-6h'' ''now'' ([CHR 0xDA] @ ''ltimas 6 horas''))
   \<and> describeTextRange ''6h'' = preset ''now-6h'' ''now'' ([CHR 0xDA] @ ''ltimas 6 horas'')
   \<and> rangeIndex ''now-3d/d to now'' = None
   \<and> describeTextRange ''now-3d/d'' =
        \<lparr>opt_from = ''now-3d/d'', opt_to = ''now'', opt_display = ''Last 3 dias'',
         opt_section = None, opt_invalid = None\<rparr>
   \<and> (opt_invalid (describeTextRange expr) = Some True \<longleftrightarrow>
        rangeIndex (normalized expr @ '' to now'') = None
        \<and> regex_exec range_regex (normalized expr) = None)
   \<and> (opt_invalid (describeTextRange expr) = Some True \<longrightarrow>
        opt_display (describeTextRange expr)
          = opt_from (describeTextRange expr) @ '' to '' @ opt_to (describeTextRange expr))
   \<and> describeTextRange ''now/d+6h'' =
        \<lparr>opt_from = ''now/d+6h'', opt_to = ''now'', opt_display = ''now/d+6h to now'',
         opt_section = None, opt_invalid = Some True\<rparr>"
proof (intro conjI impI)
  show "rangeIndex ''now-6h to now''
      = Some (preset ''now-6h'' ''now'' ([CHR 0xDA] @ ''ltimas 6 horas''))"
    by code_simp
  show "describeTextRange ''6h'' = preset ''now-6h'' ''now'' ([CHR 0xDA] @ ''ltimas 6 horas'')"
    by code_simp
  show "rangeIndex ''now-3d/d to now'' = None" by code_simp
  show "describeTextRange ''now-3d/d'' =
        \<lparr>opt_from = ''now-3d/d'', opt_to = ''now'', opt_display = ''Last 3 dias'',
         opt_section = None, opt_invalid = None\<rparr>"
    by code_simp
  show "opt_invalid (describeTextRange expr) = Some True \<longleftrightarrow>
        rangeIndex (normalized expr @ '' to now'') = None
        \<and> regex_exec range_regex (normalized expr) = None"
    by (rule describeTextRange_invalid_iff)
  show "opt_display (describeTextRange expr)
          = opt_from (describeTextRange expr) @ '' to '' @ opt_to (describeTextRange expr)"
    if "opt_invalid (describeTextRange expr) = Some True"
  proof -
    from that have "rangeIndex (normalized expr @ '' to now'') = None"
      and "regex_exec range_regex (normalized expr) = None"
      by (simp_all add: describeTextRange_invalid_iff)
    from describeTextRange_invalid [OF this] show ?thesis by simp
  qed
  show "describeTextRange ''now/d+6h'' =
        \<lparr>opt_from = ''now/d+6h'', opt_to = ''now'', opt_display = ''now/d+6h to now'',
         opt_section = None, opt_invalid = Some True\<rparr>"
    by code_simp
qed

theorem describeTextRange_preset_and_fallback_witness:
  "opt_invalid (describeTextRange ''now/w+1d'') = Some True
   \<and> opt_display (describeTextRange ''now/w+1d'') = ''now/w+1d to now''
   \<and> opt_from (describeTextRange ''now/w+1d'') = ''now/w+1d''
   \<and> opt_to (describeTextRange ''now/w+1d'') = ''now''"
proof -
  have a: "opt_invalid (describeTextRange ''now/w+1d'') = Some True" by code_simp
  have b: "opt_from (describeTextRange ''now/w+1d'') = ''now/w+1d''"
    "opt_to (describeTextRange ''now/w+1d'') = ''now''" by code_simp+
  from describeTextRange_preset_and_fallback [of "''now/w+1d''"] a
  have "opt_display (describeTextRange ''now/w+1d'')
          = opt_from (describeTextRange ''now/w+1d'') @ '' to '' @ opt_to (describeTextRange ''now/w+1d'')"
    by blast
  with a b show ?thesis by simp
qed

lemma future_misses:
  "indexOf expr ''+'' = 0 \<Longrightarrow> rangeIndex (normalized expr @ '' to now'') = None"
proof (rule ccontr)
  assume a: "indexOf expr ''+'' = 0" and "rangeIndex (normalized expr @ '' to now'') \<noteq> None"
  then obtain v where "rangeIndex (normalized expr @ '' to now'') = Some v" by auto
  then have "normalized expr \<in> set to_now_sources" by (rule rangeIndex_to_now)
  with sources_past
  have "take 1 (normalized expr) \<noteq> ''+'' \<and> take 4 (normalized expr) \<noteq> ''now+''"
    by (auto simp: list_all_iff)
  with normalized_future [OF a] show False by blast
qed

lemma future_result:
  "indexOf expr ''+'' = 0 \<Longrightarrow>
   opt_from (describeTextRange expr) = ''now'' \<and> opt_to (describeTextRange expr) = normalized expr
   \<and> take 2 (opt_display (describeTextRange expr)) \<noteq> ''Pr''"
proof -
  assume a: "indexOf expr ''+'' = 0"
  note miss = future_misses [OF a]
  show ?thesis
  proof (cases "regex_exec range_regex (normalized expr)")
    case None
    from describeTextRange_invalid [OF miss None] a show ?thesis by simp
  next
    case (Some parts)
    show ?thesis
    proof (cases "case parts 3 of None \<Rightarrow> None | Some u \<Rightarrow> map_of spans u")
      case n: None
      from describeTextRange_no_span [OF miss Some n] a show ?thesis by simp
    next
      case s: (Some sp)
      from describeTextRange_span [OF miss Some s] a show ?thesis by simp
    qed
  qed
qed

text \<open>
  C9: an expression that begins with "+" never gets a preset of the catalog. The key
  looked up is the normalized expression followed by " to now"; the future presets are
  all from "now" to "now+...". So \<open>describeTextRange("+5m")\<close> is the option built from
  the pattern, from "now" to "now+5m" with the display "Next 5 minutos", and not the
  preset stored under "now to now+5m", whose display is "Pr", the code point 0xF3 and
  "ximos 5 minutos".
\<close>

theorem describeTextRange_future_never_preset:
  "(indexOf expr ''+'' = 0 \<longrightarrow>
      rangeIndex (normalized expr @ '' to now'') = None
      \<and> describeTextRange expr \<notin> set (rangeOptions @ hiddenRangeOptions)
      \<and> opt_from (describeTextRange expr) = ''now''
      \<and> opt_to (describeTextRange expr) = normalized expr)
   \<and> list_all (\<lambda>v. opt_from v = ''now'' \<and> take 4 (opt_to v) = ''now+'') hiddenRangeOptions
   \<and> describeTextRange ''+5m'' =
        \<lparr>opt_from = ''now'', opt_to = ''now+5m'', opt_display = ''Next 5 minutos'',
         opt_section = None, opt_invalid = None\<rparr>
   \<and> rangeIndex ''now to now+5m''
        = Some (preset ''now'' ''now+5m'' (''Pr'' @ [CHR 0xF3] @ ''ximos 5 minutos''))"
proof (intro conjI impI)
  assume a: "indexOf expr ''+'' = 0"
  show "rangeIndex (normalized expr @ '' to now'') = None" using a by (rule future_misses)
  from future_result [OF a]
  show "opt_from (describeTextRange expr) = ''now''"
    and "opt_to (describeTextRange expr) = normalized expr" by blast+
  show "describeTextRange expr \<notin> set (rangeOptions @ hiddenRangeOptions)"
  proof
    assume "describeTextRange expr \<in> set (rangeOptions @ hiddenRangeOptions)"
    with presets_from_now
    have "opt_from (describeTextRange expr) = ''now'' \<longrightarrow>
          take 2 (opt_display (describeTextRange expr)) = ''Pr''"
      unfolding list_all_iff by blast
    with future_result [OF a] show False by blast
  qed
next
  show "list_all (\<lambda>v. opt_from v = ''now'' \<and> take 4 (opt_to v) = ''now+'') hiddenRangeOptions"
    by (rule future_presets)
  show "describeTextRange ''+5m'' =
        \<lparr>opt_from = ''now'', opt_to = ''now+5m'', opt_display = ''Next 5 minutos'',
         opt_section = None, opt_invalid = None\<rparr>"
    by code_simp
  show "rangeIndex ''now to now+5m''
        = Some (preset ''now'' ''now+5m'' (''Pr'' @ [CHR 0xF3] @ ''ximos 5 minutos''))"
    by code_simp
qed

theorem describeTextRange_future_never_preset_witness:
  "indexOf ''+1h'' ''+'' = 0
   \<and> normalized ''+1h'' = ''now+1h''
   \<and> rangeIndex (''now+1h'' @ '' to now'') = None
   \<and> opt_from (describeTextRange ''+1h'') = ''now''
   \<and> opt_to (describeTextRange ''+1h'') = ''now+1h''
   \<and> opt_display (describeTextRange ''+1h'') = ''Next 1 hora''"
proof -
  have a: "indexOf ''+1h'' ''+'' = 0" by code_simp
  have b: "normalized ''+1h'' = ''now+1h''" by code_simp
  have c: "opt_display (describeTextRange ''+1h'') = ''Next 1 hora''" by code_simp
  from describeTextRange_future_never_preset [of "''+1h''"] a
  have "rangeIndex (normalized ''+1h'' @ '' to now'') = None"
    and "opt_from (describeTextRange ''+1h'') = ''now''"
    and "opt_to (describeTextRange ''+1h'') = normalized ''+1h''" by blast+
  with a b c show ?thesis by simp
qed

text \<open>
  C10: when the normalized expression matches the pattern and the character captured
  as the unit is not a key of \<open>spans\<close>, \<open>describeTextRange\<close> returns an option with an
  empty display and no invalid flag, and \<open>isValidTimeSpan\<close> accepts the expression;
  "now-5q" is such an expression.
\<close>

theorem describeTextRange_unknown_unit_valid:
  "(regex_exec range_regex (normalized expr) = Some parts
      \<and> parts 3 = Some unit \<and> map_of spans unit = None \<longrightarrow>
      opt_display (describeTextRange expr) = []
      \<and> opt_invalid (describeTextRange expr) = None
      \<and> isValidTimeSpan expr)
   \<and> map_option (\<lambda>parts. parts 3) (regex_exec range_regex (normalized ''now-5q''))
        = Some (Some ''q'')
   \<and> map_of spans ''q'' = None
   \<and> describeTextRange ''now-5q'' =
        \<lparr>opt_from = ''now-5q'', opt_to = ''now'', opt_display = [],
         opt_section = None, opt_invalid = None\<rparr>
   \<and> isValidTimeSpan ''now-5q''"
proof (intro conjI impI)
  assume h: "regex_exec range_regex (normalized expr) = Some parts
      \<and> parts 3 = Some unit \<and> map_of spans unit = None"
  then have m: "regex_exec range_regex (normalized expr) = Some parts"
    and n: "(case parts 3 of None \<Rightarrow> None | Some u \<Rightarrow> map_of spans u) = None"
    by simp_all
  have miss: "rangeIndex (normalized expr @ '' to now'') = None"
  proof (rule ccontr)
    assume "rangeIndex (normalized expr @ '' to now'') \<noteq> None"
    then obtain v where "rangeIndex (normalized expr @ '' to now'') = Some v" by auto
    then have "normalized expr \<in> set to_now_sources" by (rule rangeIndex_to_now)
    with sources_units m h have "unit \<in> set (map fst spans)"
      by (auto simp: list_all_iff)
    with h show False by (simp add: map_of_eq_None_iff)
  qed
  from describeTextRange_no_span [OF miss m n]
  show d: "opt_display (describeTextRange expr) = []"
    and i: "opt_invalid (describeTextRange expr) = None" by simp_all
  from i show "isValidTimeSpan expr" by (simp add: isValidTimeSpan_def Let_def)
next
  show "map_option (\<lambda>parts. parts 3) (regex_exec range_regex (normalized ''now-5q''))
        = Some (Some ''q'')" by code_simp
  show "map_of spans ''q'' = None" by (simp add: spans_def)
  show "describeTextRange ''now-5q'' =
        \<lparr>opt_from = ''now-5q'', opt_to = ''now'', opt_display = [],
         opt_section = None, opt_invalid = None\<rparr>" by code_simp
  show "isValidTimeSpan ''now-5q''" by code_simp
qed

theorem describeTextRange_unknown_unit_valid_witness:
  "map_option (\<lambda>parts. parts 3) (regex_exec range_regex (normalized ''7x''))
        = Some (Some ''x'')
   \<and> map_of spans ''x'' = None
   \<and> opt_display (describeTextRange ''7x'') = []
   \<and> opt_invalid (describeTextRange ''7x'') = None
   \<and> isValidTimeSpan ''7x''"
proof -
  have a: "map_option (\<lambda>parts. parts 3) (regex_exec range_regex (normalized ''7x''))
        = Some (Some ''x'')" by code_simp
  then obtain parts where p: "regex_exec range_regex (normalized ''7x'') = Some parts"
    "parts 3 = Some ''x''" by auto
  have b: "map_of spans ''x'' = None" by (simp add: spans_def)
  from describeTextRange_unknown_unit_valid [of "''7x''" parts "''x''"] p b
  have "opt_display (describeTextRange ''7x'') = []"
    and "opt_invalid (describeTextRange ''7x'') = None"
    and "isValidTimeSpan ''7x''" by blast+
  with a b show ?thesis by blast
qed

end
